theory Spec2Isabelle
  imports Main "HOL-Library.AList" "HOL-Library.Word"
begin

section \<open>Strings and paths (Go standard library, as used by the adapter)\<close>

text \<open>
  Go strings are byte sequences; \<open>string\<close> (a \<open>char list\<close>) models them byte for byte.
  \<open>HasPrefix\<close> and \<open>TrimPrefix\<close> are \<^verbatim>\<open>strings.HasPrefix\<close> and
  \<^verbatim>\<open>strings.TrimPrefix\<close>.
\<close>

definition HasPrefix :: "string \<Rightarrow> string \<Rightarrow> bool" where
  "HasPrefix s p = (length p \<le> length s \<and> take (length p) s = p)"

definition TrimPrefix :: "string \<Rightarrow> string \<Rightarrow> string" where
  "TrimPrefix s p = (if HasPrefix s p then drop (length p) s else s)"

text \<open>
  \<^verbatim>\<open>path.Clean\<close>: the output buffer is the list \<open>out\<close> (its write index \<open>w\<close> is
  \<open>length out\<close>), the unread input is the list \<open>p\<close>, and \<open>dotdot\<close> is the index where
  backtracking must stop. \<open>backtrack\<close> is the inner loop of the \<^verbatim>\<open>..\<close> case: it returns
  the new write index.
\<close>

fun backtrack :: "string \<Rightarrow> nat \<Rightarrow> nat \<Rightarrow> nat" where
  "backtrack out dotdot w =
     (if w > dotdot \<and> out ! w \<noteq> CHR ''/'' then backtrack out dotdot (w - 1) else w)"

declare backtrack.simps [simp del]

function Clean_loop :: "bool \<Rightarrow> string \<Rightarrow> string \<Rightarrow> nat \<Rightarrow> string" where
  "Clean_loop rooted p out dotdot =
     (case p of
        [] \<Rightarrow> out
      | c # cs \<Rightarrow>
          if c = CHR ''/'' then Clean_loop rooted cs out dotdot
          else if c = CHR ''.'' \<and> (cs = [] \<or> hd cs = CHR ''/'') then
            Clean_loop rooted cs out dotdot
          else if c = CHR ''.'' \<and> cs \<noteq> [] \<and> hd cs = CHR ''.''
                  \<and> (tl cs = [] \<or> hd (tl cs) = CHR ''/'') then
            (if length out > dotdot then
               Clean_loop rooted (tl cs)
                 (take (backtrack out dotdot (length out - 1)) out) dotdot
             else if \<not> rooted then
               (let out' = (if length out > 0 then out @ ''/'' else out) @ ''..''
                in Clean_loop rooted (tl cs) out' (length out'))
             else Clean_loop rooted (tl cs) out dotdot)
          else
            (let out' = (if rooted \<and> length out \<noteq> 1 \<or> \<not> rooted \<and> length out \<noteq> 0
                         then out @ ''/'' else out)
             in Clean_loop rooted (dropWhile (\<lambda>x. x \<noteq> CHR ''/'') p)
                  (out' @ takeWhile (\<lambda>x. x \<noteq> CHR ''/'') p) dotdot))"
  by pat_completeness auto
termination
proof (relation "measure (\<lambda>(rooted, p, out, dotdot). length p)", goal_cases)
  case 1
  show ?case by (rule wf_measure)
next
  case (2 rooted p out dotdot c cs)
  from 2(1) show ?case by simp
next
  case (3 rooted p out dotdot c cs)
  from 3(1) show ?case by simp
next
  case (4 rooted p out dotdot c cs)
  from 4(1) show ?case by simp
next
  case (5 rooted p out dotdot c cs out')
  from 5(1) show ?case by simp
next
  case (6 rooted p out dotdot c cs)
  from 6(1) show ?case by simp
next
  case (7 rooted p out dotdot c cs out')
  have "length (dropWhile (\<lambda>x. x \<noteq> CHR ''/'') cs) \<le> length cs"
    by (rule length_dropWhile_le)
  with 7(1,2) show ?case by simp
qed

declare Clean_loop.simps [simp del]

definition Clean :: "string \<Rightarrow> string" where
  "Clean path =
     (if path = [] then ''.''
      else
        (let rooted = (hd path = CHR ''/'');
             out = (if rooted then Clean_loop True (tl path) ''/'' 1
                    else Clean_loop False path [] 0)
         in if out = [] then ''.'' else out))"

text \<open>\<^verbatim>\<open>path.Join\<close>: empty elements are skipped, the rest joined by slashes and cleaned.\<close>

definition Join :: "string list \<Rightarrow> string" where
  "Join elem =
     (if (\<Sum>e\<leftarrow>elem. length e) = 0 then []
      else Clean (foldl (\<lambda>buf e. if length buf > 0 \<or> e \<noteq> []
                                  then (if length buf > 0 then buf @ ''/'' else buf) @ e
                                  else buf) [] elem))"


section \<open>Errors\<close>

text \<open>
  The error values the adapter compares against or creates: \<^verbatim>\<open>ds.ErrNotFound\<close>,
  \<^verbatim>\<open>storage.ErrObjectNotExist\<close>, \<^verbatim>\<open>iterator.Done\<close>; every other error (a
  transport failure of the remote store, an \<^verbatim>\<open>errors.New\<close> or \<^verbatim>\<open>fmt.Errorf\<close>
  value) is \<open>ErrOther\<close> with its message. A Go \<^verbatim>\<open>error\<close> result is an
  \<open>error option\<close>, \<open>None\<close> being \<^verbatim>\<open>nil\<close>.
\<close>

datatype error = ErrNotFound | ErrObjectNotExist | IteratorDone | ErrOther string

type_synonym bytes = "8 word list"

section \<open>metadata.go\<close>

text \<open>
  Sizes are \<^verbatim>\<open>int64\<close> in \<open>Metadata\<close> and \<^verbatim>\<open>int\<close> elsewhere. No arithmetic is done on
  them, and on the 64-bit platforms the plugin is built for \<^verbatim>\<open>int(md.Size)\<close> and
  \<^verbatim>\<open>int64(len(value))\<close> keep the value, so they are modelled as \<open>int\<close>.
\<close>

record Metadata =
  Key :: string
  Size :: int

text \<open>
  \<open>MetadataCache\<close> wraps a Go map from key to \<open>Metadata\<close>. It is modelled as an
  association list with distinct keys: lookups go through \<open>map_of\<close>, and the order of the
  list stands for the order in which \<^verbatim>\<open>range\<close> visits the map, which Go leaves
  unspecified (theorems quantify over every list, hence over every order).
\<close>

type_synonym MetadataCache = "(string \<times> Metadata) list"

definition NewMetadataCache :: MetadataCache where
  "NewMetadataCache = []"

definition MetadataCache_Has :: "MetadataCache \<Rightarrow> string \<Rightarrow> bool" where
  "MetadataCache_Has md key = (case map_of md key of Some v \<Rightarrow> True | None \<Rightarrow> False)"

definition MetadataCache_Get :: "MetadataCache \<Rightarrow> string \<Rightarrow> error + Metadata" where
  "MetadataCache_Get md key = (case map_of md key of Some v \<Rightarrow> Inr v | None \<Rightarrow> Inl ErrNotFound)"

definition MetadataCache_Put :: "MetadataCache \<Rightarrow> string \<Rightarrow> int \<Rightarrow> MetadataCache" where
  "MetadataCache_Put md key sz = AList.update key \<lparr>Key = key, Size = sz\<rparr> md"

definition MetadataCache_Delete :: "MetadataCache \<Rightarrow> string \<Rightarrow> MetadataCache" where
  "MetadataCache_Delete md key = AList.delete key md"

definition MetadataCache_Size :: "MetadataCache \<Rightarrow> int" where
  "MetadataCache_Size md = int (length md)"

text \<open>
  \<open>Iterator\<close>: the loop over the map collects the matching values and stops once
  \<open>limit > 0\<close> and \<open>count = limit\<close>. The closure it returns captures \<open>values\<close> and the
  cursor \<open>i\<close>; it is the record \<open>MetadataIterator\<close>, and \<open>Iterator_next\<close> is one call of
  the closure (\<open>None\<close> is the \<^verbatim>\<open>nil\<close> it returns when exhausted).
\<close>

fun Iterator_loop :: "MetadataCache \<Rightarrow> string \<Rightarrow> int \<Rightarrow> Metadata list \<Rightarrow> int \<Rightarrow> Metadata list" where
  "Iterator_loop [] prefix limit vals count = vals"
| "Iterator_loop ((k, v) # rest) prefix limit vals count =
     (let vals' = (if HasPrefix k prefix then vals @ [v] else vals);
          count' = (if HasPrefix k prefix then count + 1 else count)
      in if limit > 0 \<and> count' = limit then vals'
         else Iterator_loop rest prefix limit vals' count')"

record MetadataIterator =
  it_values :: "Metadata list"
  it_i :: nat

definition Iterator :: "MetadataCache \<Rightarrow> string \<Rightarrow> int \<Rightarrow> MetadataIterator" where
  "Iterator md prefix limit = \<lparr>it_values = Iterator_loop md prefix limit [] 0, it_i = 0\<rparr>"


section \<open>The data cache (github.com/hashicorp/golang-lru)\<close>

text \<open>
  The library's cache as the adapter uses it: \<open>lru_New\<close> refuses a non-positive size;
  the entries are kept most recently used first; \<open>lru_Add\<close> moves an existing key to the
  front with its new value, or pushes a new entry and drops the oldest one when the size
  is exceeded; \<open>lru_Get\<close> moves a hit to the front; \<open>lru_Remove\<close> drops the key.
  The adapter stores only byte slices, so the type assertion \<^verbatim>\<open>value.([]byte)\<close> in
  \<open>Get\<close> cannot fail and the cache is typed with \<open>bytes\<close>.
\<close>

record lru =
  lru_size :: int
  lru_items :: "(string \<times> bytes) list"

definition lru_New :: "int \<Rightarrow> error + lru" where
  "lru_New sz =
     (if sz \<le> 0 then Inl (ErrOther ''Must provide a positive size'')
      else Inr \<lparr>lru_size = sz, lru_items = []\<rparr>)"

definition lru_Add :: "lru \<Rightarrow> string \<Rightarrow> bytes \<Rightarrow> lru" where
  "lru_Add c key val =
     (case map_of (lru_items c) key of
        Some old \<Rightarrow> c\<lparr>lru_items := (key, val) # AList.delete key (lru_items c)\<rparr>
      | None \<Rightarrow>
          (let items' = (key, val) # lru_items c
           in if int (length items') > lru_size c then c\<lparr>lru_items := butlast items'\<rparr>
              else c\<lparr>lru_items := items'\<rparr>))"

definition lru_Get :: "lru \<Rightarrow> string \<Rightarrow> bytes option \<times> lru" where
  "lru_Get c key =
     (case map_of (lru_items c) key of
        Some val \<Rightarrow> (Some val, c\<lparr>lru_items := (key, val) # AList.delete key (lru_items c)\<rparr>)
      | None \<Rightarrow> (None, c))"

definition lru_Remove :: "lru \<Rightarrow> string \<Rightarrow> lru" where
  "lru_Remove c key = c\<lparr>lru_items := AList.delete key (lru_items c)\<rparr>"

section \<open>The remote object store (cloud.google.com/go/storage)\<close>

text \<open>
  The adapter talks to one bucket. Its objects are an association list from object name
  to content. Every remote call takes a \<open>fault\<close>: \<open>None\<close> when the store answers from its
  objects, \<open>Some e\<close> when the call fails with the error \<open>e\<close> (network, credentials,
  quota). A store that answers reports a missing object with \<open>ErrObjectNotExist\<close>.
\<close>

type_synonym bucket = "(string \<times> bytes) list"

type_synonym fault = "error option"

record ObjectAttrs =
  attrs_Name :: string
  attrs_Size :: int

definition obj_Attrs :: "bucket \<Rightarrow> string \<Rightarrow> fault \<Rightarrow> error + ObjectAttrs" where
  "obj_Attrs rem name f =
     (case f of
        Some e \<Rightarrow> Inl e
      | None \<Rightarrow>
          (case map_of rem name of
             None \<Rightarrow> Inl ErrObjectNotExist
           | Some b \<Rightarrow> Inr \<lparr>attrs_Name = name, attrs_Size = int (length b)\<rparr>))"

definition obj_NewReader :: "bucket \<Rightarrow> string \<Rightarrow> fault \<Rightarrow> error + bytes" where
  "obj_NewReader rem name f =
     (case f of
        Some e \<Rightarrow> Inl e
      | None \<Rightarrow> (case map_of rem name of None \<Rightarrow> Inl ErrObjectNotExist | Some b \<Rightarrow> Inr b))"

text \<open>
  \<open>obj_Write\<close> is \<^verbatim>\<open>NewWriter\<close>, \<^verbatim>\<open>Write\<close> and \<^verbatim>\<open>Close\<close> together: the object
  appears when \<^verbatim>\<open>Close\<close> returns \<^verbatim>\<open>nil\<close>, and an upload that fails leaves the bucket as
  it was.
\<close>

definition obj_Write :: "bucket \<Rightarrow> string \<Rightarrow> bytes \<Rightarrow> fault \<Rightarrow> error option \<times> bucket" where
  "obj_Write rem name val f =
     (case f of Some e \<Rightarrow> (Some e, rem) | None \<Rightarrow> (None, AList.update name val rem))"

definition obj_Delete :: "bucket \<Rightarrow> string \<Rightarrow> fault \<Rightarrow> error option \<times> bucket" where
  "obj_Delete rem name f =
     (case f of
        Some e \<Rightarrow> (Some e, rem)
      | None \<Rightarrow>
          (case map_of rem name of
             None \<Rightarrow> (Some ErrObjectNotExist, rem)
           | Some b \<Rightarrow> (None, AList.delete name rem)))"

text \<open>
  \<open>bucket_Objects\<close> is the listing with \<^verbatim>\<open>storage.Query{Prefix: prefix}\<close>, as the
  sequence of results of \<^verbatim>\<open>it.Next()\<close>: the attributes of the objects whose name begins
  with the prefix, then \<open>IteratorDone\<close>. The listing fault \<open>Some (n, e)\<close> makes the call
  after \<open>n\<close> objects fail with \<open>e\<close>.
\<close>

definition bucket_Objects :: "bucket \<Rightarrow> string \<Rightarrow> (nat \<times> error) option \<Rightarrow> (error + ObjectAttrs) list" where
  "bucket_Objects rem prefix f =
     (let listed = map (\<lambda>(name, b). Inr \<lparr>attrs_Name = name, attrs_Size = int (length b)\<rparr>)
                     (filter (\<lambda>(name, b). HasPrefix name prefix) rem)
      in case f of
           None \<Rightarrow> listed @ [Inl IteratorDone]
         | Some (n, e) \<Rightarrow> take n listed @ [Inl e])"

section \<open>gcsds.go\<close>

record Config =
  Bucket :: string
  Prefix :: string
  Workers :: int
  DataCacheItems :: int

text \<open>
  The adapter: its configuration and the two local structures. The storage client is the
  \<open>bucket\<close> argument of the operations that reach the remote store; those operations
  return the bucket as they leave it.
\<close>

record GCSDatastore =
  config :: Config
  mdCache :: MetadataCache
  dataCache :: lru

definition CheckBucket :: "GCSDatastore \<Rightarrow> fault \<Rightarrow> error option" where
  "CheckBucket gd battrs = (case battrs of Some err \<Rightarrow> Some err | None \<Rightarrow> None)"

text \<open>
  \<open>NewGCSDatastore\<close>: \<open>client_err\<close> is the result of \<^verbatim>\<open>storage.NewClient\<close> and
  \<open>battrs\<close> that of the bucket probe in \<open>CheckBucket\<close>.
\<close>

definition NewGCSDatastore :: "Config \<Rightarrow> fault \<Rightarrow> fault \<Rightarrow> error + GCSDatastore" where
  "NewGCSDatastore cfg client_err battrs =
     (case client_err of
        Some err \<Rightarrow> Inl err
      | None \<Rightarrow>
          (case lru_New (DataCacheItems cfg) of
             Inl err \<Rightarrow> Inl err
           | Inr dc \<Rightarrow>
               (let gd = \<lparr>config = cfg, mdCache = NewMetadataCache, dataCache = dc\<rparr>
                in case CheckBucket gd battrs of
                     Some err \<Rightarrow> Inl err
                   | None \<Rightarrow> Inr gd)))"

definition GCSPath :: "GCSDatastore \<Rightarrow> string \<Rightarrow> string" where
  "GCSPath gd key = Join [Prefix (config gd), key]"

fun LoadMetadata_loop :: "MetadataCache \<Rightarrow> string \<Rightarrow> (error + ObjectAttrs) list \<Rightarrow> error option \<times> MetadataCache" where
  "LoadMetadata_loop md prefix [] = (None, md)"
| "LoadMetadata_loop md prefix (Inl err # rest) =
     (if err = IteratorDone then (None, md) else (Some err, md))"
| "LoadMetadata_loop md prefix (Inr attrs # rest) =
     LoadMetadata_loop
       (MetadataCache_Put md (TrimPrefix (attrs_Name attrs) prefix) (attrs_Size attrs))
       prefix rest"

definition LoadMetadata :: "GCSDatastore \<Rightarrow> bucket \<Rightarrow> (nat \<times> error) option \<Rightarrow> error option \<times> GCSDatastore" where
  "LoadMetadata gd rem f =
     (let it = bucket_Objects rem (Prefix (config gd)) f;
          (err, md) = LoadMetadata_loop (mdCache gd) (Prefix (config gd)) it
      in (err, gd\<lparr>mdCache := md\<rparr>))"

text \<open>
  A \<^verbatim>\<open>ds.Key\<close> enters every operation through \<^verbatim>\<open>k.String()\<close> only, so the operations
  take that string.
\<close>

definition Put :: "GCSDatastore \<Rightarrow> bucket \<Rightarrow> string \<Rightarrow> bytes \<Rightarrow> fault \<Rightarrow> error option \<times> GCSDatastore \<times> bucket" where
  "Put gd rem key val f =
     (let path = GCSPath gd key;
          (werr, rem') = obj_Write rem path val f
      in case werr of
           Some err \<Rightarrow> (Some err, gd, rem')
         | None \<Rightarrow>
             (None,
              gd\<lparr>mdCache := MetadataCache_Put (mdCache gd) key (int (length val)),
                 dataCache := lru_Add (dataCache gd) key val\<rparr>,
              rem'))"

definition Sync :: "GCSDatastore \<Rightarrow> bucket \<Rightarrow> string \<Rightarrow> error option \<times> GCSDatastore \<times> bucket" where
  "Sync gd rem prefix = (None, gd, rem)"

text \<open>
  \<open>Get\<close>: the faults of its two remote calls, and \<open>read_cut\<close> for the read itself, whose
  error the source drops (\<^verbatim>\<open>buf.ReadFrom(r)\<close>): \<open>Some n\<close> is a stream that breaks after
  \<open>n\<close> bytes.
\<close>

record get_faults =
  attrs_fault :: fault
  reader_fault :: fault
  read_cut :: "nat option"

definition no_faults :: get_faults where
  "no_faults = \<lparr>attrs_fault = None, reader_fault = None, read_cut = None\<rparr>"

definition Get :: "GCSDatastore \<Rightarrow> bucket \<Rightarrow> string \<Rightarrow> get_faults \<Rightarrow> (error + bytes) \<times> GCSDatastore" where
  "Get gd rem key gf =
     (case lru_Get (dataCache gd) key of
        (Some b, dc) \<Rightarrow> (Inr b, gd\<lparr>dataCache := dc\<rparr>)
      | (None, dc) \<Rightarrow>
          (let path = GCSPath gd key
           in case obj_Attrs rem path (attrs_fault gf) of
                Inl err \<Rightarrow>
                  if err = ErrObjectNotExist then (Inl ErrNotFound, gd\<lparr>dataCache := dc\<rparr>)
                  else (Inl err, gd\<lparr>dataCache := dc\<rparr>)
              | Inr attrs \<Rightarrow>
                  (case obj_NewReader rem path (reader_fault gf) of
                     Inl err \<Rightarrow> (Inl err, gd\<lparr>dataCache := dc\<rparr>)
                   | Inr content \<Rightarrow>
                       (let data = (case read_cut gf of None \<Rightarrow> content | Some n \<Rightarrow> take n content)
                        in (Inr data, gd\<lparr>dataCache := lru_Add dc key data\<rparr>)))))"

definition Has :: "GCSDatastore \<Rightarrow> string \<Rightarrow> bool \<times> error option" where
  "Has gd key = (MetadataCache_Has (mdCache gd) key, None)"

definition GetSize :: "GCSDatastore \<Rightarrow> string \<Rightarrow> int \<times> error option" where
  "GetSize gd key =
     (case MetadataCache_Get (mdCache gd) key of
        Inl err \<Rightarrow> (-1, Some err)
      | Inr md \<Rightarrow> (Size md, None))"

definition Delete :: "GCSDatastore \<Rightarrow> bucket \<Rightarrow> string \<Rightarrow> fault \<Rightarrow> error option \<times> GCSDatastore \<times> bucket" where
  "Delete gd rem key f =
     (let path = GCSPath gd key;
          (err, rem') = obj_Delete rem path f
      in if err \<noteq> None \<and> err \<noteq> Some ErrObjectNotExist then (err, gd, rem')
         else (None,
               gd\<lparr>mdCache := MetadataCache_Delete (mdCache gd) key,
                  dataCache := lru_Remove (dataCache gd) key\<rparr>,
               rem'))"

subsection \<open>Query\<close>

text \<open>
  The query of go-datastore, with the fields the adapter reads and the two it tests for
  emptiness. Orders and filters are interface values there; only their number matters
  here.
\<close>

datatype Order = OrderByKey | OrderByKeyDescending | OrderByValue | OrderByValueDescending

datatype Filter = FilterKeyPrefix string | FilterKeyCompare string | FilterValueCompare bytes

record Query =
  q_Prefix :: string
  q_Filters :: "Filter list"
  q_Orders :: "Order list"
  q_Limit :: int
  q_Offset :: int
  q_KeysOnly :: bool



record Results =
  res_query :: Query
  res_metadata :: MetadataIterator

definition Query :: "GCSDatastore \<Rightarrow> Query \<Rightarrow> error + Results" where
  "Query gd q =
     (if length (q_Orders q) > 0 \<or> length (q_Filters q) > 0 then
        Inl (ErrOther ''GCSDatastore: Orders and Filters not supported'')
      else
        Inr \<lparr>res_query = q,
             res_metadata = Iterator (mdCache gd) (q_Prefix q) (q_Limit q)\<rparr>)"




subsection \<open>Batch and Close\<close>

text \<open>
  \<^verbatim>\<open>ds.Batch\<close> is an interface of go-datastore; the adapter never builds one.
  \<open>None\<close> is the \<^verbatim>\<open>nil\<close> interface value.
\<close>

typedecl Batch

definition Batch :: "GCSDatastore \<Rightarrow> bucket \<Rightarrow> (Batch option \<times> error option) \<times> GCSDatastore \<times> bucket" where
  "Batch gd rem = ((None, None), gd, rem)"

definition Close :: "GCSDatastore \<Rightarrow> error option" where
  "Close gd = None"

text \<open>
  Go's rule for a method called through an interface value: on \<^verbatim>\<open>nil\<close> the call
  panics with a nil pointer dereference. \<open>use_batch\<close> is a caller that checks only the
  error of \<open>Batch\<close> and then calls the method \<open>m\<close> on the batch it got.
\<close>

datatype 'a call = Panic_nil_dereference | Returned 'a

definition use_batch :: "Batch option \<times> error option \<Rightarrow> (Batch \<Rightarrow> 'a) \<Rightarrow> error + 'a call" where
  "use_batch r m =
     (case snd r of
        Some err \<Rightarrow> Inl err
      | None \<Rightarrow> (case fst r of None \<Rightarrow> Inr Panic_nil_dereference | Some b \<Rightarrow> Inr (Returned (m b))))"

section \<open>Well-formed states\<close>

text \<open>
  What every index built by \<open>MetadataCache_Put\<close> and \<open>MetadataCache_Delete\<close> from the
  empty one satisfies: the keys of the list are distinct (it is a map) and every record
  is stored under its own key.
\<close>

definition md_inv :: "MetadataCache \<Rightarrow> bool" where
  "md_inv md = (distinct (map fst md) \<and> list_all (\<lambda>(k, v). Key v = k) md)"



section \<open>Example inputs\<close>

text \<open>
  The configuration of the repository's tests (prefix \<^verbatim>\<open>ipfs\<close>, a cache of 1000 items),
  the adapter \<open>NewGCSDatastore\<close> builds from it, and the bytes of \<^verbatim>\<open>hello\<close>.
\<close>

definition test_cfg :: Config where
  "test_cfg = \<lparr>Bucket = ''test-bucket'', Prefix = ''ipfs'', Workers = 10, DataCacheItems = 1000\<rparr>"

definition test_gd :: GCSDatastore where
  "test_gd = \<lparr>config = test_cfg, mdCache = [], dataCache = \<lparr>lru_size = 1000, lru_items = []\<rparr>\<rparr>"

definition hello :: bytes where
  "hello = [104, 101, 108, 108, 111]"

text \<open>
  The adapter and the bucket after \<^verbatim>\<open>Put("/k1", "hello")\<close> on the fresh adapter and an
  empty bucket, a transport failure, and a query that asks for an ordering.
\<close>

definition put_gd :: GCSDatastore where
  "put_gd = fst (snd (Put test_gd [] ''/k1'' hello None))"

definition put_rem :: bucket where
  "put_rem = snd (snd (Put test_gd [] ''/k1'' hello None))"

definition timeout_err :: error where
  "timeout_err = ErrOther ''i/o timeout''"

definition ordered_query :: Query where
  "ordered_query = \<lparr>q_Prefix = ''/'', q_Filters = [], q_Orders = [OrderByKey], q_Limit = 0,
                     q_Offset = 0, q_KeysOnly = True\<rparr>"




definition loaded_gd :: GCSDatastore where
  "loaded_gd = snd (LoadMetadata test_gd put_rem None)"

text \<open>
  The plugin's defaults (\<^verbatim>\<open>defaultPrefix = "ipfs/"\<close>, 100 workers, a cache of 40000
  items) and the adapter \<open>NewGCSDatastore\<close> builds from them.
\<close>

definition default_cfg :: Config where
  "default_cfg = \<lparr>Bucket = ''test-bucket'', Prefix = ''ipfs/'', Workers = 100,
                   DataCacheItems = 40000\<rparr>"

definition default_gd :: GCSDatastore where
  "default_gd = \<lparr>config = default_cfg, mdCache = [],
                  dataCache = \<lparr>lru_size = 40000, lru_items = []\<rparr>\<rparr>"

section \<open>Properties of the local structures\<close>

lemma NewGCSDatastore_test_gd: "NewGCSDatastore test_cfg None None = Inr test_gd"
  by (simp add: NewGCSDatastore_def lru_New_def test_cfg_def test_gd_def CheckBucket_def
      NewMetadataCache_def)

lemma NewGCSDatastore_fresh:
  assumes "NewGCSDatastore cfg ce be = Inr gd"
  shows "0 < lru_size (dataCache gd) \<and> lru_items (dataCache gd) = [] \<and> mdCache gd = []
         \<and> config gd = cfg"
  using assms
  by (auto simp: NewGCSDatastore_def lru_New_def CheckBucket_def NewMetadataCache_def Let_def
      split: option.splits if_splits)

text \<open>No operation changes the size the data cache was created with.\<close>

lemma cache_size_operations:
  "lru_size (dataCache (fst (snd (Put gd rem k v f)))) = lru_size (dataCache gd)"
  "lru_size (dataCache (fst (snd (Delete gd rem k f)))) = lru_size (dataCache gd)"
  "lru_size (dataCache (snd (Get gd rem k gf))) = lru_size (dataCache gd)"
  "lru_size (dataCache (snd (LoadMetadata gd rem lf))) = lru_size (dataCache gd)"
proof -
  show "lru_size (dataCache (fst (snd (Put gd rem k v f)))) = lru_size (dataCache gd)"
    by (simp add: Put_def obj_Write_def lru_Add_def Let_def split: option.splits)
  show "lru_size (dataCache (fst (snd (Delete gd rem k f)))) = lru_size (dataCache gd)"
    by (simp add: Delete_def lru_Remove_def Let_def split: prod.splits)
  show "lru_size (dataCache (snd (Get gd rem k gf))) = lru_size (dataCache gd)"
    by (simp add: Get_def lru_Get_def lru_Add_def Let_def split: option.splits sum.splits)
  show "lru_size (dataCache (snd (LoadMetadata gd rem lf))) = lru_size (dataCache gd)"
    by (simp add: LoadMetadata_def Let_def split: prod.splits)
qed

lemma lru_Add_hit:
  assumes "0 < lru_size c"
  shows "map_of (lru_items (lru_Add c k v)) k = Some v"
proof (cases "map_of (lru_items c) k")
  case (Some old)
  then show ?thesis by (simp add: lru_Add_def)
next
  case None
  show ?thesis
  proof (cases "lru_items c")
    case Nil
    with None assms show ?thesis by (simp add: lru_Add_def Let_def)
  next
    case (Cons x xs)
    with None show ?thesis by (simp add: lru_Add_def Let_def)
  qed
qed

lemma Get_cached:
  "map_of (lru_items (dataCache gd)) k = Some v \<Longrightarrow> fst (Get gd rem k gf) = Inr v"
  by (simp add: Get_def lru_Get_def)

section \<open>Put, then read\<close>

text \<open>
  C1. On an adapter whose data cache has a positive size (every adapter
  \<open>NewGCSDatastore\<close> returns, and the size never changes: \<open>NewGCSDatastore_fresh\<close>,
  \<open>cache_size_operations\<close>): when \<open>Put\<close> of key \<open>k\<close> and
  bytes \<open>v\<close> returns no error, then on the state it leaves \<open>Has k\<close> is true with a nil
  error, \<open>GetSize k\<close> is the length of \<open>v\<close>, and \<open>Get k\<close> returns exactly \<open>v\<close>, whatever
  the remote store does during that \<open>Get\<close>.
\<close>

theorem put_then_read:
  assumes "0 < lru_size (dataCache gd)"
    and "Put gd rem k v f = (None, gd', rem')"
  shows "Has gd' k = (True, None) \<and> GetSize gd' k = (int (length v), None)
         \<and> fst (Get gd' rem' k gf) = Inr v"
proof -
  from assms(2)
  have gd': "gd' = gd\<lparr>mdCache := MetadataCache_Put (mdCache gd) k (int (length v)),
                       dataCache := lru_Add (dataCache gd) k v\<rparr>"
    by (auto simp: Put_def Let_def split: prod.splits option.splits)
  have md: "map_of (mdCache gd') k = Some \<lparr>Key = k, Size = int (length v)\<rparr>"
    by (simp add: gd' MetadataCache_Put_def update_conv')
  have dc: "map_of (lru_items (dataCache gd')) k = Some v"
    using assms(1) by (simp add: gd' lru_Add_hit)
  from md have "Has gd' k = (True, None)"
    by (simp add: Has_def MetadataCache_Has_def)
  moreover from md have "GetSize gd' k = (int (length v), None)"
    by (simp add: GetSize_def MetadataCache_Get_def)
  moreover from dc have "fst (Get gd' rem' k gf) = Inr v"
    by (rule Get_cached)
  ultimately show ?thesis by simp
qed

theorem put_then_read_witness:
  "0 < lru_size (dataCache test_gd)
   \<and> fst (Put test_gd [] ''/k1'' hello None) = None
   \<and> Has (fst (snd (Put test_gd [] ''/k1'' hello None))) ''/k1'' = (True, None)
   \<and> GetSize (fst (snd (Put test_gd [] ''/k1'' hello None))) ''/k1'' = (5, None)
   \<and> fst (Get (fst (snd (Put test_gd [] ''/k1'' hello None)))
             (snd (snd (Put test_gd [] ''/k1'' hello None))) ''/k1'' no_faults) = Inr hello"
proof -
  have h1: "0 < lru_size (dataCache test_gd)"
    by (simp add: test_gd_def)
  have h0: "fst (Put test_gd [] ''/k1'' hello None) = None"
    by (simp add: Put_def obj_Write_def Let_def)
  then have h2: "Put test_gd [] ''/k1'' hello None =
      (None, fst (snd (Put test_gd [] ''/k1'' hello None)),
       snd (snd (Put test_gd [] ''/k1'' hello None)))"
    by (metis prod.collapse)
  have "int (length hello) = 5"
    by (simp add: hello_def)
  with put_then_read [OF h1 h2, of no_faults] h1 h0 show ?thesis
    by simp
qed

lemma MetadataCache_Delete_absent: "map_of (MetadataCache_Delete md k) k = None"
  by (simp add: MetadataCache_Delete_def delete_conv')

lemma lru_Remove_absent: "k \<notin> fst ` set (lru_items (lru_Remove c k))"
  by (simp add: lru_Remove_def delete_notin_dom)

lemma Delete_success:
  assumes "fst (obj_Delete rem (GCSPath gd k) f) = None
           \<or> fst (obj_Delete rem (GCSPath gd k) f) = Some ErrObjectNotExist"
  shows "Delete gd rem k f =
           (None,
            gd\<lparr>mdCache := MetadataCache_Delete (mdCache gd) k,
               dataCache := lru_Remove (dataCache gd) k\<rparr>,
            snd (obj_Delete rem (GCSPath gd k) f))"
  using assms by (auto simp: Delete_def Let_def split: prod.splits)

lemma Delete_failure:
  assumes "fst (obj_Delete rem (GCSPath gd k) f) = Some e" and "e \<noteq> ErrObjectNotExist"
  shows "Delete gd rem k f = (Some e, gd, snd (obj_Delete rem (GCSPath gd k) f))"
  using assms by (auto simp: Delete_def Let_def split: prod.splits)

lemma obj_Delete_answers:
  "fst (obj_Delete rem name None) = None \<or> fst (obj_Delete rem name None) = Some ErrObjectNotExist"
  by (simp add: obj_Delete_def split: option.splits)

lemma put_gd_eq:
  "put_gd = \<lparr>config = test_cfg, mdCache = [(''/k1'', \<lparr>Key = ''/k1'', Size = 5\<rparr>)],
             dataCache = \<lparr>lru_size = 1000, lru_items = [(''/k1'', hello)]\<rparr>\<rparr>"
  by (simp add: put_gd_def Put_def obj_Write_def Let_def test_gd_def MetadataCache_Put_def
      lru_Add_def hello_def)

lemma GCSPath_test_k1: "Join [''ipfs'', ''/k1''] = ''ipfs/k1''"
  by code_simp

lemma put_rem_eq: "put_rem = [(''ipfs/k1'', hello)]"
  by (simp add: put_rem_def Put_def obj_Write_def Let_def GCSPath_def test_gd_def test_cfg_def
      GCSPath_test_k1)

section \<open>Put fails\<close>

text \<open>
  C5. When the remote write of \<open>Put\<close> reports an error \<open>e\<close>, \<open>Put\<close> returns \<open>e\<close> and
  the adapter is the one it was called on: metadata index and data cache are unchanged.
\<close>

theorem put_failure_no_mutation:
  assumes "fst (obj_Write rem (GCSPath gd k) v f) = Some e"
  shows "fst (Put gd rem k v f) = Some e \<and> fst (snd (Put gd rem k v f)) = gd
         \<and> mdCache (fst (snd (Put gd rem k v f))) = mdCache gd
         \<and> dataCache (fst (snd (Put gd rem k v f))) = dataCache gd"
  using assms by (auto simp: Put_def Let_def split: prod.splits option.splits)

theorem put_failure_no_mutation_witness:
  "fst (obj_Write put_rem (GCSPath put_gd ''/k2'') hello (Some timeout_err)) = Some timeout_err
   \<and> fst (Put put_gd put_rem ''/k2'' hello (Some timeout_err)) = Some timeout_err
   \<and> fst (snd (Put put_gd put_rem ''/k2'' hello (Some timeout_err))) = put_gd"
proof -
  have h: "fst (obj_Write put_rem (GCSPath put_gd ''/k2'') hello (Some timeout_err))
           = Some timeout_err"
    by (simp add: obj_Write_def)
  from put_failure_no_mutation [OF h] h show ?thesis by simp
qed

section \<open>Delete\<close>

text \<open>
  C4. When the remote delete succeeds or reports that the object does not exist, \<open>Delete\<close>
  returns no error and afterwards the key is in neither local structure, so \<open>Has\<close> is
  false. When the remote delete fails with any other error \<open>e\<close>, \<open>Delete\<close> returns \<open>e\<close>
  and the adapter (index and cache) is unchanged. Two \<open>Delete\<close> calls in a row on a
  store that answers both return no error.
\<close>

theorem delete_idempotent:
  "(fst (obj_Delete rem (GCSPath gd k) f) = None
      \<or> fst (obj_Delete rem (GCSPath gd k) f) = Some ErrObjectNotExist
    \<longrightarrow> fst (Delete gd rem k f) = None
        \<and> Has (fst (snd (Delete gd rem k f))) k = (False, None)
        \<and> k \<notin> fst ` set (lru_items (dataCache (fst (snd (Delete gd rem k f))))))
   \<and> (fst (obj_Delete rem (GCSPath gd k) f) = Some e \<and> e \<noteq> ErrObjectNotExist
    \<longrightarrow> fst (Delete gd rem k f) = Some e \<and> fst (snd (Delete gd rem k f)) = gd)
   \<and> fst (Delete gd rem k None) = None
   \<and> fst (Delete (fst (snd (Delete gd rem k None))) (snd (snd (Delete gd rem k None))) k None)
       = None"
proof (intro conjI impI)
  assume ok: "fst (obj_Delete rem (GCSPath gd k) f) = None
      \<or> fst (obj_Delete rem (GCSPath gd k) f) = Some ErrObjectNotExist"
  note d = Delete_success [OF ok]
  show "fst (Delete gd rem k f) = None" by (simp add: d)
  show "Has (fst (snd (Delete gd rem k f))) k = (False, None)"
    by (simp add: d Has_def MetadataCache_Has_def MetadataCache_Delete_absent)
  show "k \<notin> fst ` set (lru_items (dataCache (fst (snd (Delete gd rem k f)))))"
    using lru_Remove_absent [of k "dataCache gd"] by (simp add: d)
next
  assume "fst (obj_Delete rem (GCSPath gd k) f) = Some e \<and> e \<noteq> ErrObjectNotExist"
  then have d: "Delete gd rem k f = (Some e, gd, snd (obj_Delete rem (GCSPath gd k) f))"
    by (simp add: Delete_failure)
  show "fst (Delete gd rem k f) = Some e" by (simp add: d)
  show "fst (snd (Delete gd rem k f)) = gd" by (simp add: d)
next
  show "fst (Delete gd rem k None) = None"
    by (simp add: Delete_success [OF obj_Delete_answers])
next
  show "fst (Delete (fst (snd (Delete gd rem k None))) (snd (snd (Delete gd rem k None))) k None)
       = None"
    by (simp add: Delete_success [OF obj_Delete_answers])
qed

theorem delete_idempotent_witness:
  "fst (obj_Delete put_rem (GCSPath put_gd ''/k1'') None) = None
   \<and> fst (Delete put_gd put_rem ''/k1'' None) = None
   \<and> Has (fst (snd (Delete put_gd put_rem ''/k1'' None))) ''/k1'' = (False, None)
   \<and> fst (obj_Delete put_rem (GCSPath put_gd ''/k1'') (Some timeout_err)) = Some timeout_err
   \<and> timeout_err \<noteq> ErrObjectNotExist
   \<and> fst (Delete put_gd put_rem ''/k1'' (Some timeout_err)) = Some timeout_err
   \<and> fst (snd (Delete put_gd put_rem ''/k1'' (Some timeout_err))) = put_gd"
proof -
  have p: "GCSPath put_gd ''/k1'' = ''ipfs/k1''"
    by (simp add: GCSPath_def put_gd_eq test_cfg_def GCSPath_test_k1)
  have a: "fst (obj_Delete put_rem (GCSPath put_gd ''/k1'') None) = None"
    by (simp add: p put_rem_eq obj_Delete_def)
  have b: "fst (obj_Delete put_rem (GCSPath put_gd ''/k1'') (Some timeout_err)) = Some timeout_err
           \<and> timeout_err \<noteq> ErrObjectNotExist"
    by (simp add: obj_Delete_def timeout_err_def)
  from delete_idempotent [of put_rem put_gd "''/k1''" None timeout_err]
       delete_idempotent [of put_rem put_gd "''/k1''" "Some timeout_err" timeout_err] a b
  show ?thesis by simp
qed

section \<open>Unsupported queries\<close>

text \<open>
  C6. A query with a non-empty list of orders or of filters is refused: \<open>Query\<close> returns
  the error \<^verbatim>\<open>GCSDatastore: Orders and Filters not supported\<close> and no results object,
  whatever the other fields of the query and the state of the index.
\<close>

theorem query_rejects_orders_filters:
  assumes "q_Orders q \<noteq> [] \<or> q_Filters q \<noteq> []"
  shows "Query gd q = Inl (ErrOther ''GCSDatastore: Orders and Filters not supported'')"
  using assms by (auto simp: Query_def)

theorem query_rejects_orders_filters_witness:
  "q_Orders ordered_query = [OrderByKey]
   \<and> Query put_gd ordered_query = Inl (ErrOther ''GCSDatastore: Orders and Filters not supported'')"
proof -
  have h: "q_Orders ordered_query \<noteq> [] \<or> q_Filters ordered_query \<noteq> []"
    by (simp add: ordered_query_def)
  have o: "q_Orders ordered_query = [OrderByKey]"
    by (simp add: ordered_query_def)
  from query_rejects_orders_filters [OF h, of put_gd] o show ?thesis by simp
qed

section \<open>Keys that were never stored\<close>

text \<open>
  The keys of the index and of the cache after each operation: a key enters the index
  only by a \<open>Put\<close> of that key that succeeds or by a bulk load that lists an object
  whose trimmed name it is; it enters the cache only by such a \<open>Put\<close> or by a \<open>Get\<close> of
  that key that succeeds.
\<close>

lemma keys_update: "fst ` set (AList.update k v al) = insert k (fst ` set al)"
  by (induction al) auto

lemma keys_delete: "fst ` set (AList.delete k al) = fst ` set al - {k}"
  by (induction al) auto

lemma index_keys_Put:
  "fst ` set (mdCache (fst (snd (Put gd rem k v f))))
     = (if fst (Put gd rem k v f) = None then insert k (fst ` set (mdCache gd))
        else fst ` set (mdCache gd))"
  by (auto simp: Put_def obj_Write_def Let_def MetadataCache_Put_def keys_update
      split: option.splits)

lemma index_keys_Delete:
  "fst ` set (mdCache (fst (snd (Delete gd rem k f)))) \<subseteq> fst ` set (mdCache gd)"
  by (auto simp: Delete_def Let_def MetadataCache_Delete_def keys_delete split: prod.splits)

lemma index_keys_LoadMetadata_loop:
  "fst ` set (snd (LoadMetadata_loop md p it))
     \<subseteq> fst ` set md \<union> {TrimPrefix (attrs_Name a) p | a. Inr a \<in> set it}"
proof (induction md p it rule: LoadMetadata_loop.induct)
  case (3 md prefix attrs rest)
  then show ?case by (auto simp: MetadataCache_Put_def keys_update)
qed auto

lemma index_keys_LoadMetadata:
  "fst ` set (mdCache (snd (LoadMetadata gd rem lf)))
     \<subseteq> fst ` set (mdCache gd)
       \<union> {TrimPrefix name (Prefix (config gd)) | name. name \<in> fst ` set rem
                                                     \<and> HasPrefix name (Prefix (config gd))}"
proof -
  let ?p = "Prefix (config gd)"
  have "{TrimPrefix (attrs_Name a) ?p | a. Inr a \<in> set (bucket_Objects rem ?p lf)}
        \<subseteq> {TrimPrefix name ?p | name. name \<in> fst ` set rem \<and> HasPrefix name ?p}"
    by (auto simp: bucket_Objects_def Let_def split: option.splits dest!: in_set_takeD) force+
  with index_keys_LoadMetadata_loop [of "mdCache gd" ?p "bucket_Objects rem ?p lf"]
  have "fst ` set (snd (LoadMetadata_loop (mdCache gd) ?p (bucket_Objects rem ?p lf)))
        \<subseteq> fst ` set (mdCache gd)
          \<union> {TrimPrefix name ?p | name. name \<in> fst ` set rem \<and> HasPrefix name ?p}"
    by blast
  moreover have "mdCache (snd (LoadMetadata gd rem lf))
                 = snd (LoadMetadata_loop (mdCache gd) ?p (bucket_Objects rem ?p lf))"
    by (simp add: LoadMetadata_def Let_def split: prod.splits)
  ultimately show ?thesis by simp
qed

lemma cache_keys_Add: "fst ` set (lru_items (lru_Add c k v)) \<subseteq> insert k (fst ` set (lru_items c))"
  by (auto simp: lru_Add_def Let_def keys_delete split: option.splits dest: in_set_butlastD)

lemma cache_keys_Get_lru: "fst ` set (lru_items (snd (lru_Get c k))) = fst ` set (lru_items c)"
proof (cases "map_of (lru_items c) k")
  case None
  then show ?thesis by (simp add: lru_Get_def)
next
  case (Some b)
  then have "k \<in> fst ` set (lru_items c)"
    by (metis domI dom_map_of_conv_image_fst)
  with Some show ?thesis by (auto simp: lru_Get_def keys_delete)
qed

lemma cache_keys_Put:
  "fst ` set (lru_items (dataCache (fst (snd (Put gd rem k v f)))))
     \<subseteq> (if fst (Put gd rem k v f) = None then insert k (fst ` set (lru_items (dataCache gd)))
         else fst ` set (lru_items (dataCache gd)))"
  using cache_keys_Add [of "dataCache gd" k v]
  by (auto simp: Put_def obj_Write_def Let_def split: option.splits)

lemma cache_keys_Delete:
  "fst ` set (lru_items (dataCache (fst (snd (Delete gd rem k f)))))
     \<subseteq> fst ` set (lru_items (dataCache gd))"
  by (auto simp: Delete_def Let_def lru_Remove_def keys_delete split: prod.splits)

lemma cache_keys_Get:
  "fst ` set (lru_items (dataCache (snd (Get gd rem k gf))))
     \<subseteq> (case fst (Get gd rem k gf) of
           Inl err \<Rightarrow> fst ` set (lru_items (dataCache gd))
         | Inr b \<Rightarrow> insert k (fst ` set (lru_items (dataCache gd))))"
proof (cases "map_of (lru_items (dataCache gd)) k")
  case None
  then have g: "lru_Get (dataCache gd) k = (None, dataCache gd)" by (simp add: lru_Get_def)
  show ?thesis
    using cache_keys_Add [of "dataCache gd" k]
    by (auto simp: Get_def g Let_def split: sum.splits)
next
  case (Some b)
  then have "lru_Get (dataCache gd) k
      = (Some b, (dataCache gd)\<lparr>lru_items := (k, b) # AList.delete k (lru_items (dataCache gd))\<rparr>)"
    by (simp add: lru_Get_def)
  then show ?thesis by (auto simp: Get_def keys_delete)
qed

lemma cache_LoadMetadata: "dataCache (snd (LoadMetadata gd rem lf)) = dataCache gd"
  by (simp add: LoadMetadata_def Let_def split: prod.splits)





section \<open>Sync and Batch\<close>

text \<open>
  C9. \<open>Sync\<close> returns no error and leaves the adapter (index and cache) and the bucket
  as they are, for every prefix and every state.
\<close>

theorem sync_noop: "Sync gd rem p = (None, gd, rem)"
  by (simp add: Sync_def)

text \<open>
  C10. \<open>Batch\<close> returns a nil batch with a nil error and leaves adapter and bucket as
  they are; a caller that checks only the error and then calls a method on the batch
  runs into the nil dereference.
\<close>

theorem batch_nil:
  "fst (Batch gd rem) = (None, None) \<and> snd (Batch gd rem) = (gd, rem)
   \<and> use_batch (fst (Batch gd rem)) m = Inr Panic_nil_dereference"
  by (simp add: Batch_def use_batch_def)

section \<open>Query\<close>

subsection \<open>The snapshot of the iterator\<close>











subsection \<open>The entries handed out\<close>







subsection \<open>The index invariant is kept by every operation\<close>

lemma md_inv_empty: "md_inv NewMetadataCache"
  by (simp add: md_inv_def NewMetadataCache_def)

lemma list_all_update:
  "list_all P al \<Longrightarrow> P (k, v) \<Longrightarrow> list_all P (AList.update k v al)"
  by (induction al) auto

lemma list_all_delete: "list_all P al \<Longrightarrow> list_all P (AList.delete k al)"
  by (induction al) auto

lemma md_inv_Put: "md_inv md \<Longrightarrow> md_inv (MetadataCache_Put md k sz)"
  by (simp add: md_inv_def MetadataCache_Put_def distinct_update list_all_update)

lemma md_inv_Delete: "md_inv md \<Longrightarrow> md_inv (MetadataCache_Delete md k)"
  by (simp add: md_inv_def MetadataCache_Delete_def distinct_delete list_all_delete)

lemma md_inv_LoadMetadata_loop:
  "md_inv md \<Longrightarrow> md_inv (snd (LoadMetadata_loop md p it))"
  by (induction md p it rule: LoadMetadata_loop.induct) (simp_all add: md_inv_Put)

lemma Get_mdCache: "mdCache (snd (Get gd rem k gf)) = mdCache gd"
  by (simp add: Get_def Let_def split: prod.splits option.splits sum.splits)

lemma md_inv_operations:
  assumes "md_inv (mdCache gd)"
  shows "md_inv (mdCache (fst (snd (Put gd rem k v f))))"
    and "md_inv (mdCache (fst (snd (Delete gd rem k f))))"
    and "md_inv (mdCache (snd (Get gd rem k gf)))"
    and "md_inv (mdCache (snd (LoadMetadata gd rem lf)))"
proof -
  show "md_inv (mdCache (fst (snd (Put gd rem k v f))))"
    using assms by (simp add: Put_def Let_def md_inv_Put split: prod.splits option.splits)
  show "md_inv (mdCache (fst (snd (Delete gd rem k f))))"
    using assms by (simp add: Delete_def Let_def md_inv_Delete split: prod.splits)
  show "md_inv (mdCache (snd (Get gd rem k gf)))"
    using assms by (simp add: Get_mdCache)
  show "md_inv (mdCache (snd (LoadMetadata gd rem lf)))"
    using md_inv_LoadMetadata_loop [OF assms,
            of "Prefix (config gd)" "bucket_Objects rem (Prefix (config gd)) lf"]
    by (auto simp: LoadMetadata_def Let_def split: prod.splits)
qed

subsection \<open>Query returns the matching keys\<close>





section \<open>Reload\<close>

text \<open>
  With the prefix of the repository's tests, \<^verbatim>\<open>ipfs\<close>, a fresh adapter that bulk-loads
  the bucket left by \<^verbatim>\<open>Put("/k1", "hello")\<close> finds the key again.
\<close>

lemma reload_test_prefix:
  "LoadMetadata test_gd put_rem None
     = (None, test_gd\<lparr>mdCache := [(''/k1'', \<lparr>Key = ''/k1'', Size = 5\<rparr>)]\<rparr>)
   \<and> Has loaded_gd ''/k1'' = (True, None)
   \<and> GetSize loaded_gd ''/k1'' = (5, None)
   \<and> fst (Get loaded_gd put_rem ''/k1'' no_faults) = Inr hello"
  by code_simp

lemma HasPrefix_append: "HasPrefix (p @ k) p"
  by (simp add: HasPrefix_def)

lemma TrimPrefix_append: "TrimPrefix (p @ k) p = k"
  by (simp add: TrimPrefix_def HasPrefix_def)

lemma TrimPrefix_inj:
  assumes "HasPrefix n p" and "HasPrefix n' p" and "TrimPrefix n p = TrimPrefix n' p"
  shows "n = n'"
proof -
  from assms(1,2) have "n = p @ drop (length p) n" and "n' = p @ drop (length p) n'"
    by (metis HasPrefix_def append_take_drop_id)+
  with assms show ?thesis by (simp add: TrimPrefix_def)
qed

lemma LoadMetadata_loop_done:
  "LoadMetadata_loop md p (map Inr as @ [Inl IteratorDone])
     = (None, foldl (\<lambda>md a. MetadataCache_Put md (TrimPrefix (attrs_Name a) p) (attrs_Size a))
                md as)"
  by (induction as arbitrary: md) simp_all

lemma loaded_lookup:
  assumes "distinct (map fst xs)" and "list_all (\<lambda>(n, b). HasPrefix n p) xs"
    and "(n, b) \<in> set xs"
  shows "map_of (foldl (\<lambda>md a. MetadataCache_Put md (TrimPrefix (attrs_Name a) p) (attrs_Size a))
                  md (map (\<lambda>(name, b). \<lparr>attrs_Name = name, attrs_Size = int (length b)\<rparr>) xs))
           (TrimPrefix n p)
         = Some \<lparr>Key = TrimPrefix n p, Size = int (length b)\<rparr>"
  using assms
proof (induction xs rule: rev_induct)
  case Nil
  then show ?case by simp
next
  case (snoc x xs)
  obtain n' b' where x: "x = (n', b')" by (cases x)
  show ?case
  proof (cases "(n, b) = x")
    case True
    with x show ?thesis by (simp add: MetadataCache_Put_def update_conv')
  next
    case False
    with snoc.prems x have mem: "(n, b) \<in> set xs" by auto
    with snoc.prems x have "n \<noteq> n'" by force
    moreover from snoc.prems mem x have "HasPrefix n p" and "HasPrefix n' p"
      by (auto simp: list_all_iff)
    ultimately have ne: "TrimPrefix n' p \<noteq> TrimPrefix n p"
      using TrimPrefix_inj by blast
    from snoc.IH mem snoc.prems have
      "map_of (foldl (\<lambda>md a. MetadataCache_Put md (TrimPrefix (attrs_Name a) p) (attrs_Size a))
                  md (map (\<lambda>(name, b). \<lparr>attrs_Name = name, attrs_Size = int (length b)\<rparr>) xs))
           (TrimPrefix n p)
         = Some \<lparr>Key = TrimPrefix n p, Size = int (length b)\<rparr>"
      by simp
    with ne x show ?thesis by (simp add: MetadataCache_Put_def update_conv')
  qed
qed

text \<open>
  Where \<open>path.Join\<close> of prefix and key is their plain concatenation (as for the prefix
  \<^verbatim>\<open>ipfs\<close> and a clean rooted key), a fresh adapter that bulk-loads a bucket holding the
  object of \<open>k\<close> indexes it under \<open>k\<close>, with its size, and \<open>Get\<close> reads it back.
\<close>

lemma reload_when_join_concatenates:
  assumes "mdCache gd = []" and "lru_items (dataCache gd) = []"
    and "distinct (map fst rem)"
    and "map_of rem (Prefix (config gd) @ k) = Some v"
    and "GCSPath gd k = Prefix (config gd) @ k"
  shows "fst (LoadMetadata gd rem None) = None
     \<and> Has (snd (LoadMetadata gd rem None)) k = (True, None)
     \<and> GetSize (snd (LoadMetadata gd rem None)) k = (int (length v), None)
     \<and> fst (Get (snd (LoadMetadata gd rem None)) rem k no_faults) = Inr v"
proof -
  let ?p = "Prefix (config gd)"
  let ?xs = "filter (\<lambda>(name, b). HasPrefix name ?p) rem"
  let ?as = "map (\<lambda>(name, b). \<lparr>attrs_Name = name, attrs_Size = int (length b)\<rparr>) ?xs"
  let ?md = "foldl (\<lambda>md a. MetadataCache_Put md (TrimPrefix (attrs_Name a) ?p) (attrs_Size a))
               [] ?as"
  have it: "bucket_Objects rem ?p None = map Inr ?as @ [Inl IteratorDone]"
    by (simp add: bucket_Objects_def Let_def comp_def case_prod_unfold)
  have lm: "LoadMetadata gd rem None = (None, gd\<lparr>mdCache := ?md\<rparr>)"
    unfolding LoadMetadata_def Let_def it LoadMetadata_loop_done assms(1) by simp
  have mem: "(?p @ k, v) \<in> set ?xs"
    using assms(4) by (auto dest: map_of_SomeD simp: HasPrefix_append)
  have "map_of ?md (TrimPrefix (?p @ k) ?p)
          = Some \<lparr>Key = TrimPrefix (?p @ k) ?p, Size = int (length v)\<rparr>"
    by (rule loaded_lookup [OF _ _ mem])
       (simp_all add: assms(3) distinct_map_filter list_all_iff)
  then have md: "map_of ?md k = Some \<lparr>Key = k, Size = int (length v)\<rparr>"
    by (simp add: TrimPrefix_append)
  have "Has (gd\<lparr>mdCache := ?md\<rparr>) k = (True, None)"
    using md by (simp add: Has_def MetadataCache_Has_def)
  moreover have "GetSize (gd\<lparr>mdCache := ?md\<rparr>) k = (int (length v), None)"
    using md by (simp add: GetSize_def MetadataCache_Get_def)
  moreover have "fst (Get (gd\<lparr>mdCache := ?md\<rparr>) rem k no_faults) = Inr v"
    using assms(2,4,5)
    by (simp add: Get_def lru_Get_def GCSPath_def obj_Attrs_def obj_NewReader_def no_faults_def
        Let_def)
  ultimately show ?thesis by (simp add: lm)
qed

text \<open>\<open>Put\<close> leaves the object of the key in the bucket, under the name \<open>GCSPath\<close> gives.\<close>

lemma Put_writes_object:
  "fst (Put gd rem k v f) = None \<Longrightarrow>
   map_of (snd (snd (Put gd rem k v f))) (GCSPath gd k) = Some v
   \<and> (distinct (map fst rem) \<longrightarrow> distinct (map fst (snd (snd (Put gd rem k v f)))))"
  by (auto simp: Put_def obj_Write_def Let_def update_conv' distinct_update split: option.splits)


text \<open>
  For the prefix \<^verbatim>\<open>ipfs\<close> and a key of one segment without dots (the block keys of
  the tests), \<^verbatim>\<open>path.Join\<close> is the concatenation.
\<close>

lemma takeWhile_no_slash: "CHR ''/'' \<notin> set seg \<Longrightarrow> takeWhile (\<lambda>x. x \<noteq> CHR ''/'') seg = seg"
  by (induction seg) auto

lemma dropWhile_no_slash: "CHR ''/'' \<notin> set seg \<Longrightarrow> dropWhile (\<lambda>x. x \<noteq> CHR ''/'') seg = []"
  by (induction seg) auto

lemma Clean_loop_last_element:
  assumes "seg \<noteq> []" and "CHR ''/'' \<notin> set seg" and "CHR ''.'' \<notin> set seg" and "out \<noteq> []"
  shows "Clean_loop False seg out dotdot = out @ ''/'' @ seg"
proof -
  obtain c cs where seg: "seg = c # cs" using assms(1) by (cases seg) auto
  with assms have c: "c \<noteq> CHR ''/''" "c \<noteq> CHR ''.''" by auto
  have "Clean_loop False seg out dotdot
        = Clean_loop False (dropWhile (\<lambda>x. x \<noteq> CHR ''/'') seg)
            ((out @ ''/'') @ takeWhile (\<lambda>x. x \<noteq> CHR ''/'') seg) dotdot"
    using c assms(4) by (subst Clean_loop.simps) (simp add: seg)
  also have "\<dots> = Clean_loop False [] ((out @ ''/'') @ seg) dotdot"
    by (simp only: takeWhile_no_slash [OF assms(2)] dropWhile_no_slash [OF assms(2)])
  also have "\<dots> = out @ ''/'' @ seg"
    by (subst Clean_loop.simps) simp
  finally show ?thesis .
qed

lemma Join_ipfs_block_key:
  assumes "seg \<noteq> []" and "CHR ''/'' \<notin> set seg" and "CHR ''.'' \<notin> set seg"
  shows "Join [''ipfs'', CHR ''/'' # seg] = ''ipfs'' @ CHR ''/'' # seg"
proof -
  have "Clean_loop False (''ipfs//'' @ seg) [] 0 = Clean_loop False (''//'' @ seg) ''ipfs'' 0"
    by (subst Clean_loop.simps) simp
  also have "\<dots> = Clean_loop False (''/'' @ seg) ''ipfs'' 0"
    by (subst Clean_loop.simps) simp
  also have "\<dots> = Clean_loop False seg ''ipfs'' 0"
    by (subst Clean_loop.simps) simp
  also have "\<dots> = ''ipfs'' @ ''/'' @ seg"
    by (rule Clean_loop_last_element [OF assms]) simp
  finally have "Clean (''ipfs//'' @ seg) = ''ipfs/'' @ seg"
    by (simp add: Clean_def)
  then show ?thesis by (simp add: Join_def)
qed

text \<open>
  C2 fails on the code. With the plugin's default prefix \<^verbatim>\<open>ipfs/\<close>, \<open>Put\<close> of the
  key \<^verbatim>\<open>/k1\<close> succeeds and writes the object \<^verbatim>\<open>ipfs/k1\<close> (\<open>GCSPath\<close> joins prefix
  and key with \<^verbatim>\<open>path.Join\<close>, which drops the doubled slash); a fresh adapter over the
  same bucket and prefix then bulk-loads that object under the key \<^verbatim>\<open>k1\<close>
  (\<open>TrimPrefix\<close> cuts the whole prefix, slash included), so on it \<open>Has\<close> of \<^verbatim>\<open>/k1\<close>
  is false and \<open>GetSize\<close> fails with \<open>ErrNotFound\<close>.
\<close>

theorem reload_default_prefix:
  "NewGCSDatastore default_cfg None None = Inr default_gd
   \<and> fst (Put default_gd [] ''/k1'' hello None) = None
   \<and> snd (snd (Put default_gd [] ''/k1'' hello None)) = [(''ipfs/k1'', hello)]
   \<and> Has (fst (snd (Put default_gd [] ''/k1'' hello None))) ''/k1'' = (True, None)
   \<and> LoadMetadata default_gd [(''ipfs/k1'', hello)] None
       = (None, default_gd\<lparr>mdCache := [(''k1'', \<lparr>Key = ''k1'', Size = 5\<rparr>)]\<rparr>)
   \<and> Has (default_gd\<lparr>mdCache := [(''k1'', \<lparr>Key = ''k1'', Size = 5\<rparr>)]\<rparr>) ''/k1''
       = (False, None)
   \<and> GetSize (default_gd\<lparr>mdCache := [(''k1'', \<lparr>Key = ''k1'', Size = 5\<rparr>)]\<rparr>) ''/k1''
       = (-1, Some ErrNotFound)"
  by code_simp

end
